theory Spec2Isabelle
  imports Complex_Main "HOL-Library.Sublist" "HOL-Library.AList"
begin

section \<open>Strings and the library calls used by the strategy\<close>

text \<open>
  The strategy under verification is the class \<open>LLMAnalysisStrategy\<close> of
  \<^verbatim>\<open>packages/github-agent/src/services/analysis/strategies/LLMAnalysisStrategy.ts\<close>.
  JavaScript strings are modelled as \<^typ>\<open>string\<close> restricted to ASCII text, scores as
  exact reals (no rounding, no NaN), and the numbers that count or index (batch size,
  number of files to analyse, symbol kind, row, column) as natural numbers.
\<close>

definition upperAlphabet :: string where
  "upperAlphabet = ''ABCDEFGHIJKLMNOPQRSTUVWXYZ''"

definition lowerAlphabet :: string where
  "lowerAlphabet = ''abcdefghijklmnopqrstuvwxyz''"

text \<open>\<open>String.prototype.toLowerCase\<close> on ASCII text.\<close>

definition toLowerChar :: "char \<Rightarrow> char" where
  "toLowerChar c = (case map_of (zip upperAlphabet lowerAlphabet) c of Some l \<Rightarrow> l | None \<Rightarrow> c)"

definition toLowerCase :: "string \<Rightarrow> string" where
  "toLowerCase s = map toLowerChar s"

text \<open>\<open>String.prototype.toUpperCase\<close> on ASCII text.\<close>

definition toUpperChar :: "char \<Rightarrow> char" where
  "toUpperChar c = (case map_of (zip lowerAlphabet upperAlphabet) c of Some u \<Rightarrow> u | None \<Rightarrow> c)"

definition toUpperCase :: "string \<Rightarrow> string" where
  "toUpperCase s = map toUpperChar s"

text \<open>
  \<open>s.includes(t)\<close>: \<open>t\<close> occurs in \<open>s\<close> as a contiguous substring (the name
  \<open>includes\<close> itself is reserved in Isabelle).
\<close>

fun includesStr :: "string \<Rightarrow> string \<Rightarrow> bool" where
  "includesStr [] t = (t = [])"
| "includesStr (c # cs) t = (prefix t (c # cs) \<or> includesStr cs t)"

text \<open>
  \<open>path.basename\<close> and \<open>path.dirname\<close> of Node's POSIX \<open>path\<close> module: trailing
  separators are ignored; \<open>dirname\<close> looks for the separator from index 1 on and
  answers \<open>.\<close>, \<open>/\<close> or \<open>//\<close> in its corner cases.
\<close>

definition basename :: "string \<Rightarrow> string" where
  "basename p =
     rev (takeWhile (\<lambda>c. c \<noteq> CHR ''/'') (dropWhile (\<lambda>c. c = CHR ''/'') (rev p)))"

definition dirname :: "string \<Rightarrow> string" where
  "dirname p =
     (if p = [] then ''.''
      else
        let hasRoot = (hd p = CHR ''/'');
            rest = dropWhile (\<lambda>c. c \<noteq> CHR ''/'') (dropWhile (\<lambda>c. c = CHR ''/'') (rev (tl p)));
            endIdx = length rest
        in if rest = [] then (if hasRoot then ''/'' else ''.'')
           else if hasRoot \<and> endIdx = 1 then ''//''
           else take endIdx p)"

text \<open>
  The regular-expression literals of \<open>calculateFilePathScore\<close> have three shapes only:
  a literal searched anywhere (\<open>/index\./\<close>), a literal anchored at the end
  (\<open>/package\.json$/\<close>), and an end-anchored literal under the \<open>i\<close> flag
  (\<open>/readme\.md$/i\<close>). An alternation \<open>(a|b)\<close> is written as one pattern per
  alternative; all uses are under \<open>Array.prototype.some\<close>.
\<close>

datatype pattern = Contains string | EndsWith string | EndsWithI string

fun test :: "pattern \<Rightarrow> string \<Rightarrow> bool" where
  "test (Contains lit) s = includesStr s lit"
| "test (EndsWith lit) s = suffix lit s"
| "test (EndsWithI lit) s = suffix (toLowerCase lit) (toLowerCase s)"

definition some :: "pattern list \<Rightarrow> string \<Rightarrow> bool" where
  "some patterns s = list_ex (\<lambda>p. test p s) patterns"

section \<open>Keywords\<close>

text \<open>The four keyword tiers, each a sequence of strings.\<close>

record SearchKeywords =
  primary :: "string list"
  secondary :: "string list"
  technical :: "string list"
  contextual :: "string list"

section \<open>Path scoring (pass 1 of the candidate filter)\<close>

definition codeFilePatterns :: "pattern list" where
  "codeFilePatterns =
     map (\<lambda>e. EndsWith (''.'' @ e))
       [''ts'', ''js'', ''tsx'', ''jsx'', ''py'', ''java'', ''cpp'', ''c'', ''h'', ''cs'',
        ''php'', ''rb'', ''go'', ''rs'', ''kt'', ''swift'']
     @ map (\<lambda>e. EndsWith (''.'' @ e)) [''json'', ''yaml'', ''yml'', ''toml'', ''xml'', ''config'']
     @ map (\<lambda>e. EndsWithI (''.'' @ e)) [''md'', ''txt'', ''rst'']"

definition importantFilePatterns :: "pattern list" where
  "importantFilePatterns =
     [Contains ''index.'', Contains ''main.'', Contains ''app.'', Contains ''server.'',
      Contains ''client.'', Contains ''api.'', EndsWith ''package.json'',
      EndsWithI ''readme.md'', Contains ''config.'', Contains ''setup.'', Contains ''init.'']"

definition importantDirPatterns :: "pattern list" where
  "importantDirPatterns =
     map (\<lambda>d. Contains (''/'' @ d @ ''/''))
       [''src'', ''lib'', ''core'', ''api'', ''routes'', ''controllers'', ''services'',
        ''components'', ''utils'', ''helpers'', ''models'', ''types'', ''interfaces'']
     @ map (\<lambda>d. Contains (''/'' @ d @ ''/'')) [''test'', ''tests'', ''spec'', ''specs'']
     @ map (\<lambda>d. Contains (''/'' @ d @ ''/'')) [''config'', ''configs'', ''settings'']"

definition excludePatterns :: "pattern list" where
  "excludePatterns =
     [Contains ''node_modules'', Contains ''.git'', Contains ''dist'', Contains ''build'',
      Contains ''coverage'', Contains ''.next'', Contains ''.nuxt'', Contains ''vendor'',
      Contains ''target'', Contains ''bin'', Contains ''obj'', Contains ''.vscode'',
      Contains ''.idea'']
     @ map (\<lambda>e. EndsWith (''.'' @ e)) [''log'', ''tmp'', ''cache'', ''lock'']
     @ map (\<lambda>e. EndsWith (''.'' @ e))
         [''png'', ''jpg'', ''jpeg'', ''gif'', ''svg'', ''ico'', ''woff'', ''woff2'', ''ttf'', ''eot'']"

text \<open>
  One keyword loop of \<open>calculateFilePathScore\<close> that tries the file name first and the
  directory name otherwise (primary: 3 and 1.5; secondary: 2 and 1).
\<close>

definition nameOrDirLoop :: "string \<Rightarrow> string \<Rightarrow> real \<Rightarrow> real \<Rightarrow> string list \<Rightarrow> real \<Rightarrow> real" where
  "nameOrDirLoop fileName dirName inName inDir keywords score0 =
     foldl (\<lambda>score keyword.
              let keywordLower = toLowerCase keyword
              in if includesStr fileName keywordLower then score + inName
                 else if includesStr dirName keywordLower then score + inDir
                 else score)
       score0 keywords"

text \<open>One keyword loop that searches the full path (technical: 1; contextual: 0.5).\<close>

definition fullPathLoop :: "string \<Rightarrow> real \<Rightarrow> string list \<Rightarrow> real \<Rightarrow> real" where
  "fullPathLoop fullPath weight keywords score0 =
     foldl (\<lambda>score keyword.
              let keywordLower = toLowerCase keyword
              in if includesStr fullPath keywordLower then score + weight else score)
       score0 keywords"

text \<open>
  The body of \<open>calculateFilePathScore\<close> up to, and without, its final penalty step:
  the value of \<open>score\<close> when control reaches the \<open>excludePatterns\<close> test.
\<close>

definition scoreBeforePenalty :: "string \<Rightarrow> SearchKeywords \<Rightarrow> real" where
  "scoreBeforePenalty filePath keywords =
     (let fileName = toLowerCase (basename filePath);
          dirName = toLowerCase (dirname filePath);
          fullPath = toLowerCase filePath;
          score = nameOrDirLoop fileName dirName 3 1.5 (primary keywords) 0;
          score = nameOrDirLoop fileName dirName 2 1 (secondary keywords) score;
          score = fullPathLoop fullPath 1 (technical keywords) score;
          score = fullPathLoop fullPath 0.5 (contextual keywords) score;
          score = (if some codeFilePatterns filePath then score + 1 else score);
          score = (if some importantFilePatterns filePath then score + 1.5 else score);
          score = (if some importantDirPatterns filePath then score + 0.8 else score)
      in score)"

definition calculateFilePathScore :: "string \<Rightarrow> SearchKeywords \<Rightarrow> real" where
  "calculateFilePathScore filePath keywords =
     (let score = scoreBeforePenalty filePath keywords
      in if some excludePatterns filePath then score * 0.1 else score)"

section \<open>Issues, symbols, results and collaborators\<close>

text \<open>
  Field names follow the source. Where two object shapes of the source share a field
  name, or the name is reserved, the record carries a prefix: \<open>llm_reason\<close> is the
  \<open>reason\<close> of the inference answer; \<open>symbol_name\<close>, \<open>symbol_type\<close>,
  \<open>location_file\<close>, \<open>location_line\<close>, \<open>location_column\<close> and \<open>description\<close>
  are the fields of a returned symbol; \<open>api_path\<close>, \<open>api_method\<close> and
  \<open>api_description\<close> those of a returned API.
\<close>

record GitHubIssue =
  title :: string
  body :: "string option"

text \<open>A parsed symbol as the symbol-analysis provider yields it; \<open>comment\<close> is optional.\<close>

record Symbol =
  name :: string
  qualifiedName :: string
  kind :: nat
  filePath :: string
  position_start_row :: nat
  position_start_column :: nat
  comment :: "string option"

text \<open>\<open>context.analysisResult.symbolAnalysis.symbols\<close> is flattened to one optional list.\<close>

record AnalysisContext =
  issue :: GitHubIssue
  workspacePath :: string
  filteredFiles :: "string list"
  symbolAnalysis :: "Symbol list option"

text \<open>
  An element of \<open>AnalysisResult['files']\<close>. A candidate of the filter is the same
  object without a \<open>reason\<close>.
\<close>

record AnalysisFile =
  path :: string
  content :: string
  relevanceScore :: real
  reason :: "string option"

record RelevantSymbol =
  symbol_name :: string
  symbol_type :: string
  location_file :: string
  location_line :: nat
  location_column :: nat
  description :: string

record RelevantApi =
  api_path :: string
  api_method :: string
  api_description :: string

record AnalysisResult =
  files :: "AnalysisFile list"
  symbols :: "RelevantSymbol list"
  apis :: "RelevantApi list"

text \<open>The answer of \<open>LLMService.analyzeCodeRelevance\<close>.\<close>

record LLMAnalysis =
  is_relevant :: bool
  relevance_score :: real
  llm_reason :: string

text \<open>
  What a call can throw. JavaScript lets any value be thrown: \<open>null\<close> and
  \<open>undefined\<close> are kept apart from the error objects, which carry a message.
\<close>

datatype error =
  ThrownNull | ThrownUndefined
  | LLMError string | IOError string | SyntaxError string | TypeError string

text \<open>
  \<open>error.message\<close> on a caught value: reading a property of \<open>null\<close> or
  \<open>undefined\<close> throws a \<open>TypeError\<close>.
\<close>

fun errorMessage :: "error \<Rightarrow> error + string" where
  "errorMessage ThrownNull = Inl (TypeError ''Cannot read properties of null'')"
| "errorMessage ThrownUndefined = Inl (TypeError ''Cannot read properties of undefined'')"
| "errorMessage (LLMError m) = Inr m"
| "errorMessage (IOError m) = Inr m"
| "errorMessage (SyntaxError m) = Inr m"
| "errorMessage (TypeError m) = Inr m"

text \<open>
  The collaborators of the strategy, which the source reaches through \<open>this.llmService\<close>,
  \<open>fs\<close>, \<open>path\<close> and \<open>RegExp\<close>:
  \<^item> \<open>analyzeCodeRelevance issue path content\<close> answers or throws;
  \<^item> \<open>readFile p\<close> is \<open>fs.promises.readFile(p, 'utf-8')\<close>;
  \<^item> \<open>pathJoin\<close> and \<open>pathRelative\<close> are \<open>path.join\<close> and \<open>path.relative\<close>;
  \<^item> \<open>matchCount pattern subject\<close> is
    \<open>(subject.match(new RegExp(pattern, 'g')) || []).length\<close>, which throws when the
    pattern is not a regular expression.
\<close>

record Services =
  analyzeCodeRelevance :: "GitHubIssue \<Rightarrow> string \<Rightarrow> string \<Rightarrow> error + LLMAnalysis"
  readFile :: "string \<Rightarrow> error + string"
  pathJoin :: "string \<Rightarrow> string \<Rightarrow> string"
  pathRelative :: "string \<Rightarrow> string \<Rightarrow> string"
  matchCount :: "string \<Rightarrow> string \<Rightarrow> error + nat"

text \<open>The two private numeric fields of the class, and its constructor's defaults.\<close>

record LLMAnalysisStrategy =
  batchSize :: nat
  maxFilesToAnalyze :: nat

text \<open>\<open>n || d\<close> on an optional count: absent and \<open>0\<close> both give the default.\<close>

definition orDefault :: "nat option \<Rightarrow> nat \<Rightarrow> nat" where
  "orDefault v d = (case v of None \<Rightarrow> d | Some n \<Rightarrow> if n = 0 then d else n)"

definition newLLMAnalysisStrategy :: "nat option \<Rightarrow> nat option \<Rightarrow> LLMAnalysisStrategy" where
  "newLLMAnalysisStrategy optBatchSize optMaxFilesToAnalyze =
     \<lparr>batchSize = orDefault optBatchSize 3,
      maxFilesToAnalyze = orDefault optMaxFilesToAnalyze 8\<rparr>"

text \<open>\<open>s || d\<close> on an optional string: absent and empty both give the default.\<close>

definition orElse :: "string option \<Rightarrow> string \<Rightarrow> string" where
  "orElse v d = (case v of None \<Rightarrow> d | Some s \<Rightarrow> if s = [] then d else s)"

text \<open>\<open>xs.slice(a, b)\<close> for indices \<open>0 \<le> a\<close>, \<open>0 \<le> b\<close>.\<close>

definition slice :: "nat \<Rightarrow> nat \<Rightarrow> 'a list \<Rightarrow> 'a list" where
  "slice a b xs = take (b - a) (drop a xs)"

text \<open>
  \<open>xs.sort((a, b) => b.relevanceScore - a.relevanceScore)\<close>: a stable sort,
  descending by score.
\<close>

definition sortByScoreDesc :: "('a \<Rightarrow> real) \<Rightarrow> 'a list \<Rightarrow> 'a list" where
  "sortByScoreDesc score xs = sort_key (\<lambda>x. - score x) xs"

section \<open>The candidate filter\<close>

text \<open>
  Pass 1 of \<open>findCandidateFiles\<close>: the \<open>Map\<close> from path to score, in insertion order.
  \<open>Map.prototype.set\<close> on a key already present keeps the key's position, as
  \<^const>\<open>AList.update\<close> does.
\<close>

definition fileScores :: "AnalysisContext \<Rightarrow> SearchKeywords \<Rightarrow> (string \<times> real) list" where
  "fileScores context keywords =
     foldl (\<lambda>scores file.
              let score = calculateFilePathScore file keywords
              in if score > 0.3 then AList.update file score scores else scores)
       [] (filteredFiles context)"

definition topCandidates ::
  "LLMAnalysisStrategy \<Rightarrow> AnalysisContext \<Rightarrow> SearchKeywords \<Rightarrow> string list" where
  "topCandidates this context keywords =
     map fst (take (maxFilesToAnalyze this * 2) (sortByScoreDesc snd (fileScores context keywords)))"

definition loadFileContent :: "Services \<Rightarrow> string \<Rightarrow> string option" where
  "loadFileContent services p = (case readFile services p of Inl e \<Rightarrow> None | Inr text \<Rightarrow> Some text)"

fun contentLoop :: "Services \<Rightarrow> string \<Rightarrow> string list \<Rightarrow> real \<Rightarrow> error + real" where
  "contentLoop services contentLower [] score = Inr score"
| "contentLoop services contentLower (keyword # rest) score =
     (case matchCount services (toLowerCase keyword) contentLower of
        Inl e \<Rightarrow> Inl e
      | Inr matches \<Rightarrow> contentLoop services contentLower rest (score + min (real matches * 0.1) 2))"

definition calculateContentScore :: "Services \<Rightarrow> string \<Rightarrow> SearchKeywords \<Rightarrow> error + real" where
  "calculateContentScore services text keywords =
     (let allKeywords = primary keywords @ secondary keywords @ technical keywords @ contextual keywords
      in case contentLoop services (toLowerCase text) allKeywords 0 of
           Inl e \<Rightarrow> Inl e
         | Inr score \<Rightarrow> Inr (score / max (real (length text) / 1000) 1))"

text \<open>
  One iteration of the second loop of \<open>findCandidateFiles\<close>. An unreadable or empty file
  is skipped, and so is a file whose content scoring throws (the \<open>catch\<close> of the loop
  body). \<open>fileScores.get(file) || 0\<close> reads the score stored by pass 1.
\<close>

definition secondPassStep ::
  "Services \<Rightarrow> AnalysisContext \<Rightarrow> SearchKeywords \<Rightarrow> (string \<times> real) list \<Rightarrow>
   AnalysisFile list \<Rightarrow> string \<Rightarrow> AnalysisFile list" where
  "secondPassStep services context keywords scores candidates file =
     (case loadFileContent services (pathJoin services (workspacePath context) file) of
        None \<Rightarrow> candidates
      | Some text \<Rightarrow>
          if text = [] then candidates
          else
            let pathScore = (case map_of scores file of Some s \<Rightarrow> s | None \<Rightarrow> 0)
            in case calculateContentScore services text keywords of
                 Inl e \<Rightarrow> candidates
               | Inr contentScore \<Rightarrow>
                   let finalScore = pathScore + contentScore
                   in if finalScore > 0.5
                      then candidates @
                        [\<lparr>path = file, content = take 4000 text,
                          relevanceScore = min (finalScore / 10) 1, reason = None\<rparr>]
                      else candidates)"

definition findCandidateFiles ::
  "Services \<Rightarrow> LLMAnalysisStrategy \<Rightarrow> AnalysisContext \<Rightarrow> SearchKeywords \<Rightarrow> AnalysisFile list" where
  "findCandidateFiles services this context keywords =
     (let scores = fileScores context keywords;
          candidates = foldl (secondPassStep services context keywords scores) []
                         (topCandidates this context keywords)
      in sortByScoreDesc relevanceScore candidates)"

section \<open>Model-assisted file relevance\<close>

text \<open>What one promise of \<open>batchPromises\<close> resolves to.\<close>

record BatchResult =
  batch_file :: AnalysisFile
  llmAnalysis :: "LLMAnalysis option"
  caught :: "error option"

text \<open>
  The \<open>async\<close> callback mapped over a batch. Its \<open>catch\<close> first builds the warning,
  which reads \<open>error.message\<close>, and then returns the object with
  \<open>llmAnalysis: null\<close>. When that read throws, the callback's promise rejects; otherwise
  a throwing inference call ends in a resolved promise (the fields \<open>file\<close> and
  \<open>error\<close> of the source are \<open>batch_file\<close> and \<open>caught\<close> here).
\<close>

definition analyzeInBatch :: "Services \<Rightarrow> GitHubIssue \<Rightarrow> AnalysisFile \<Rightarrow> error + BatchResult" where
  "analyzeInBatch services iss f =
     (case analyzeCodeRelevance services iss (path f) (content f) of
        Inr answer \<Rightarrow> Inr \<lparr>batch_file = f, llmAnalysis = Some answer, caught = None\<rparr>
      | Inl e \<Rightarrow>
          (case errorMessage e of
             Inl thrownInCatch \<Rightarrow> Inl thrownInCatch
           | Inr msg \<Rightarrow> Inr \<lparr>batch_file = f, llmAnalysis = None, caught = Some e\<rparr>))"

text \<open>\<open>await Promise.all(ps)\<close>: all the values, or the rejection of a rejected promise.\<close>

fun promiseAll :: "(error + 'a) list \<Rightarrow> error + 'a list" where
  "promiseAll [] = Inr []"
| "promiseAll (p # ps) =
     (case p of
        Inl e \<Rightarrow> Inl e
      | Inr v \<Rightarrow> (case promiseAll ps of Inl e \<Rightarrow> Inl e | Inr vs \<Rightarrow> Inr (v # vs)))"

text \<open>The body of the \<open>for (const { file, llmAnalysis } of batchResults)\<close> loop.\<close>

definition pushResult :: "AnalysisFile list \<Rightarrow> BatchResult \<Rightarrow> AnalysisFile list" where
  "pushResult llmAnalyzedFiles r =
     (case llmAnalysis r of
        Some answer \<Rightarrow>
          if is_relevant answer
          then llmAnalyzedFiles @
            [\<lparr>path = path (batch_file r), content = content (batch_file r),
              relevanceScore = relevance_score answer, reason = Some (llm_reason answer)\<rparr>]
          else llmAnalyzedFiles
      | None \<Rightarrow> llmAnalyzedFiles @ [batch_file r])"

text \<open>
  The batch loop of \<open>findRelevantFiles\<close>, \<open>for (let i = 0; i < n; i += batchSize)\<close>,
  entered at index \<open>i\<close> with the files accumulated so far; \<open>step\<close> is
  \<open>this.batchSize\<close>. The loop does not end when \<open>batchSize\<close> is \<open>0\<close>, so its
  result is optional: \<open>None\<close> is "never returns". No \<open>try\<close> surrounds
  \<open>await Promise.all\<close>: its rejection leaves the loop and the method (\<open>Inl\<close>).
\<close>

partial_function (option) batchLoop ::
  "Services \<Rightarrow> GitHubIssue \<Rightarrow> nat \<Rightarrow> AnalysisFile list \<Rightarrow> nat \<Rightarrow> AnalysisFile list \<Rightarrow>
   (error + AnalysisFile list) option" where
  "batchLoop services iss step filesToAnalyze i llmAnalyzedFiles =
     (if i < length filesToAnalyze
      then
        (case promiseAll (map (analyzeInBatch services iss) (slice i (i + step) filesToAnalyze)) of
           Inl e \<Rightarrow> Some (Inl e)
         | Inr batchResults \<Rightarrow>
             batchLoop services iss step filesToAnalyze (i + step)
               (foldl pushResult llmAnalyzedFiles batchResults))
      else Some (Inr llmAnalyzedFiles))"

text \<open>\<open>filesToAnalyze\<close>: the candidates that are handed to the inference service.\<close>

definition filesToAnalyze ::
  "Services \<Rightarrow> LLMAnalysisStrategy \<Rightarrow> AnalysisContext \<Rightarrow> SearchKeywords \<Rightarrow> AnalysisFile list" where
  "filesToAnalyze services this context keywords =
     slice 0 (maxFilesToAnalyze this) (findCandidateFiles services this context keywords)"

text \<open>
  The outcome of the batch loop: the value of \<open>llmAnalyzedFiles\<close> when it has ended,
  or the rejection that left it.
\<close>

definition llmAnalyzedFiles ::
  "Services \<Rightarrow> LLMAnalysisStrategy \<Rightarrow> AnalysisContext \<Rightarrow> SearchKeywords \<Rightarrow>
   (error + AnalysisFile list) option" where
  "llmAnalyzedFiles services this context keywords =
     batchLoop services (issue context) (batchSize this)
       (filesToAnalyze services this context keywords) 0 []"

definition findRelevantFiles ::
  "Services \<Rightarrow> LLMAnalysisStrategy \<Rightarrow> AnalysisContext \<Rightarrow> SearchKeywords \<Rightarrow>
   (error + AnalysisFile list) option" where
  "findRelevantFiles services this context keywords =
     (let candidateFiles = findCandidateFiles services this context keywords
      in case llmAnalyzedFiles services this context keywords of
           None \<Rightarrow> None
         | Some (Inl e) \<Rightarrow> Some (Inl e)
         | Some (Inr analyzed) \<Rightarrow>
             if length analyzed = 0 then Some (Inr (slice 0 5 candidateFiles))
             else Some (Inr (slice 0 10 (sortByScoreDesc relevanceScore analyzed))))"

section \<open>Symbols, APIs and confidence\<close>

text \<open>
  The class extends \<open>BaseAnalysisStrategy\<close> (\<open>interfaces/IAnalysisStrategy\<close>), whose
  text is not part of the sources at hand. The two inherited methods that the strategy
  calls are taken as they come: \<open>calculateSymbolRelevance\<close>, and the
  \<open>calculateConfidence\<close> reached through \<open>super\<close>.
\<close>

record BaseAnalysisStrategy =
  calculateSymbolRelevance :: "Symbol \<Rightarrow> SearchKeywords \<Rightarrow> real"
  superCalculateConfidence :: "AnalysisResult \<Rightarrow> real"

definition kindMap :: "(nat \<times> string) list" where
  "kindMap =
     [(1, ''File''), (2, ''Module''), (3, ''Namespace''), (4, ''Package''), (5, ''Class''),
      (6, ''Method''), (7, ''Property''), (8, ''Field''), (9, ''Constructor''), (10, ''Enum''),
      (11, ''Interface''), (12, ''Function''), (13, ''Variable''), (14, ''Constant''),
      (15, ''String''), (16, ''Number''), (17, ''Boolean''), (18, ''Array''), (19, ''Object''),
      (20, ''Key''), (21, ''Null''), (22, ''EnumMember''), (23, ''Struct''), (24, ''Event''),
      (25, ''Operator''), (26, ''TypeParameter'')]"

definition getSymbolKindName :: "nat \<Rightarrow> string" where
  "getSymbolKindName k = orElse (map_of kindMap k) ''Unknown''"

text \<open>The object pushed by \<open>findRelevantSymbols\<close> for a kept symbol.\<close>

definition symbolEntry :: "Services \<Rightarrow> AnalysisContext \<Rightarrow> Symbol \<Rightarrow> RelevantSymbol" where
  "symbolEntry services context symbol =
     \<lparr>symbol_name = name symbol,
      symbol_type = getSymbolKindName (kind symbol),
      location_file = pathRelative services (workspacePath context) (filePath symbol),
      location_line = position_start_row symbol,
      location_column = position_start_column symbol,
      description = orElse (comment symbol) (qualifiedName symbol)\<rparr>"

definition findRelevantSymbols ::
  "BaseAnalysisStrategy \<Rightarrow> Services \<Rightarrow> AnalysisContext \<Rightarrow> SearchKeywords \<Rightarrow> RelevantSymbol list" where
  "findRelevantSymbols base services context keywords =
     (case symbolAnalysis context of
        None \<Rightarrow> []
      | Some syms \<Rightarrow>
          slice 0 10
            (foldl (\<lambda>relevantSymbols symbol.
                      let relevance = calculateSymbolRelevance base symbol keywords
                      in if relevance > 0.5
                         then relevantSymbols @ [symbolEntry services context symbol]
                         else relevantSymbols)
               [] syms))"

definition httpMethods :: "string list" where
  "httpMethods = [''get'', ''post'', ''put'', ''delete'', ''patch'', ''head'', ''options'']"

definition apiTerms :: "string list" where
  "apiTerms =
     [''controller'', ''route'', ''endpoint'', ''api'', ''handler'', ''service'',
      ''get'', ''post'', ''put'', ''delete'', ''patch'', ''head'', ''options'']"

text \<open>The \<open>for\<close> loop of \<open>extractHttpMethod\<close>, which returns at the first hit.\<close>

fun firstMethod :: "string \<Rightarrow> string list \<Rightarrow> string option" where
  "firstMethod text [] = None"
| "firstMethod text (m # ms) =
     (if includesStr text m then Some (toUpperCase m) else firstMethod text ms)"

definition extractHttpMethod :: "Symbol \<Rightarrow> string option" where
  "extractHttpMethod symbol =
     firstMethod (toLowerCase (name symbol @ '' '' @ qualifiedName symbol)) httpMethods"

definition isApiRelated :: "Symbol \<Rightarrow> bool" where
  "isApiRelated symbol =
     (let symbolText = toLowerCase
            (name symbol @ '' '' @ qualifiedName symbol @ '' '' @ orElse (comment symbol) '''')
      in list_ex (\<lambda>term. includesStr symbolText term) apiTerms)"

text \<open>The object pushed by \<open>findRelevantApis\<close> for a kept symbol.\<close>

definition apiEntry :: "Services \<Rightarrow> AnalysisContext \<Rightarrow> Symbol \<Rightarrow> RelevantApi" where
  "apiEntry services context symbol =
     \<lparr>api_path = pathRelative services (workspacePath context) (filePath symbol),
      api_method = orElse (extractHttpMethod symbol) ''UNKNOWN'',
      api_description = orElse (comment symbol) (qualifiedName symbol)\<rparr>"

text \<open>The list \<open>relevantApis\<close> when the loop of \<open>findRelevantApis\<close> has ended.\<close>

definition collectApis ::
  "BaseAnalysisStrategy \<Rightarrow> Services \<Rightarrow> AnalysisContext \<Rightarrow> SearchKeywords \<Rightarrow> Symbol list \<Rightarrow>
   RelevantApi list" where
  "collectApis base services context keywords syms =
     foldl (\<lambda>relevantApis symbol.
              if isApiRelated symbol
              then
                let relevance = calculateSymbolRelevance base symbol keywords
                in if relevance > 0.3
                   then relevantApis @ [apiEntry services context symbol]
                   else relevantApis
              else relevantApis)
       [] syms"

definition findRelevantApis ::
  "BaseAnalysisStrategy \<Rightarrow> Services \<Rightarrow> AnalysisContext \<Rightarrow> SearchKeywords \<Rightarrow> RelevantApi list" where
  "findRelevantApis base services context keywords =
     (case symbolAnalysis context of
        None \<Rightarrow> []
      | Some syms \<Rightarrow> slice 0 8 (collectApis base services context keywords syms))"

text \<open>The truth value JavaScript gives an optional string: present and not empty.\<close>

definition truthy :: "string option \<Rightarrow> bool" where
  "truthy v = (case v of None \<Rightarrow> False | Some s \<Rightarrow> s \<noteq> [])"

definition hasReasons :: "AnalysisResult \<Rightarrow> bool" where
  "hasReasons result = list_ex (\<lambda>f. truthy (reason f)) (files result)"

definition calculateConfidence :: "BaseAnalysisStrategy \<Rightarrow> AnalysisResult \<Rightarrow> real" where
  "calculateConfidence base result =
     (let baseConfidence = superCalculateConfidence base result;
          reasonBonus = (if hasReasons result then 0.2 else 0)
      in min (baseConfidence + reasonBonus) 1)"

section \<open>What the batch loop computes, file by file\<close>

text \<open>The promise of a file rejects: the callback threw.\<close>

definition rejects :: "Services \<Rightarrow> GitHubIssue \<Rightarrow> AnalysisFile \<Rightarrow> bool" where
  "rejects services iss f = isl (analyzeInBatch services iss f)"

text \<open>
  What the loop body appends to \<open>llmAnalyzedFiles\<close> for one file whose promise
  resolved. For a rejected promise the loop body is not reached.
\<close>

definition contribution :: "Services \<Rightarrow> GitHubIssue \<Rightarrow> AnalysisFile \<Rightarrow> AnalysisFile list" where
  "contribution services iss f =
     (case analyzeInBatch services iss f of
        Inl e \<Rightarrow> []
      | Inr r \<Rightarrow> pushResult [] r)"

text \<open>The \<open>k\<close>-th batch that the loop of \<open>findRelevantFiles\<close> cuts out (\<open>k\<close> from 0).\<close>

definition batchOf ::
  "Services \<Rightarrow> LLMAnalysisStrategy \<Rightarrow> AnalysisContext \<Rightarrow> SearchKeywords \<Rightarrow> nat \<Rightarrow> AnalysisFile list" where
  "batchOf services this context keywords k =
     slice (k * batchSize this) (k * batchSize this + batchSize this)
       (filesToAnalyze services this context keywords)"

text \<open>
  The invariant of the second pass of the candidate filter. The file of the entry was
  read and is not empty, its content was scored, the path score and the content score
  add up to more than 0.5, and the entry stores the first 4000 characters and that
  sum, divided by 10 and capped at 1.
\<close>

definition wellScored :: "Services \<Rightarrow> AnalysisContext \<Rightarrow> SearchKeywords \<Rightarrow> AnalysisFile \<Rightarrow> bool" where
  "wellScored services context keywords c =
     (case loadFileContent services (pathJoin services (workspacePath context) (path c)) of
        None \<Rightarrow> False
      | Some text \<Rightarrow>
          text \<noteq> [] \<and> content c = take 4000 text \<and>
          (case calculateContentScore services text keywords of
             Inl e \<Rightarrow> False
           | Inr contentScore \<Rightarrow>
               0.5 < calculateFilePathScore (path c) keywords + contentScore \<and>
               relevanceScore c =
                 min ((calculateFilePathScore (path c) keywords + contentScore) / 10) 1))"

section \<open>The inherited confidence\<close>

text \<open>A result with every reason removed: what two results that differ in their reasons only share.\<close>

definition eraseReasons :: "AnalysisResult \<Rightarrow> AnalysisResult" where
  "eraseReasons result = result\<lparr>files := map (\<lambda>f. f\<lparr>reason := None\<rparr>) (files result)\<rparr>"

text \<open>
  Modelled from the spec: \<open>BaseAnalysisStrategy.calculateConfidence\<close>, which
  \<open>calculateConfidence\<close> calls through \<open>super\<close>, is missing from the sources. The
  spec describes a confidence as a scalar in [0,1] and the base confidence as "derived from result
  size/score distribution (shared baseline across variants)". Of this, two facts are used
  about a result and its counterpart without reasons: the base confidence of the result
  is not negative, and it is the same for the counterpart, which differs in nothing the
  base confidence is derived from.
\<close>

definition baselineContract :: "BaseAnalysisStrategy \<Rightarrow> AnalysisResult \<Rightarrow> AnalysisResult \<Rightarrow> bool" where
  "baselineContract base result result0 \<longleftrightarrow>
     0 \<le> superCalculateConfidence base result \<and>
     (eraseReasons result0 = eraseReasons result \<longrightarrow>
        superCalculateConfidence base result0 = superCalculateConfidence base result)"

section \<open>A small workspace\<close>

text \<open>
  Concrete inputs on which the theorems below are exercised: an issue about
  \<open>UserService\<close>, a workspace of three files, and collaborators whose inference call
  is left open.
\<close>

text \<open>The number of matches of a pattern without metacharacters: occurrences, left to right, not overlapping.\<close>

fun countLiteral :: "string \<Rightarrow> string \<Rightarrow> nat" where
  "countLiteral pat [] = 0"
| "countLiteral pat (c # cs) =
     (if pat \<noteq> [] \<and> prefix pat (c # cs)
      then Suc (countLiteral pat (drop (length pat - 1) cs))
      else countLiteral pat cs)"

definition sampleKeywords :: SearchKeywords where
  "sampleKeywords =
     \<lparr>primary = [''UserService'', ''getUser''], secondary = [], technical = [], contextual = []\<rparr>"

definition sampleIssue :: GitHubIssue where
  "sampleIssue = \<lparr>title = ''NullPointerException in UserService.getUser'', body = None\<rparr>"

definition sampleContext :: AnalysisContext where
  "sampleContext =
     \<lparr>issue = sampleIssue, workspacePath = ''/ws'',
      filteredFiles = [''src/utils/logger.ts'', ''src/services/UserService.ts'', ''dist/a.png''],
      symbolAnalysis = None\<rparr>"

definition sampleReadFile :: "string \<Rightarrow> error + string" where
  "sampleReadFile p =
     (if p = ''/ws/src/services/UserService.ts'' then Inr ''class UserService { getUser() {} }''
      else if p = ''/ws/src/utils/logger.ts'' then Inr ''export const log = console.log''
      else Inl (IOError ''ENOENT''))"

definition sampleServices ::
  "(GitHubIssue \<Rightarrow> string \<Rightarrow> string \<Rightarrow> error + LLMAnalysis) \<Rightarrow> Services" where
  "sampleServices llm =
     \<lparr>analyzeCodeRelevance = llm,
      readFile = sampleReadFile,
      pathJoin = (\<lambda>a b. a @ ''/'' @ b),
      pathRelative = (\<lambda>a b. drop (Suc (length a)) b),
      matchCount = (\<lambda>pat subject. Inr (countLiteral pat subject))\<rparr>"

text \<open>
  Three inference services: one that always throws an error object, one whose calls
  always reject with \<open>undefined\<close>, and one that never finds a file relevant.
\<close>

definition failingLLM :: "GitHubIssue \<Rightarrow> string \<Rightarrow> string \<Rightarrow> error + LLMAnalysis" where
  "failingLLM iss p text = Inl (LLMError ''503'')"

definition undefinedRejectingLLM :: "GitHubIssue \<Rightarrow> string \<Rightarrow> string \<Rightarrow> error + LLMAnalysis" where
  "undefinedRejectingLLM iss p text = Inl ThrownUndefined"

definition dismissiveLLM :: "GitHubIssue \<Rightarrow> string \<Rightarrow> string \<Rightarrow> error + LLMAnalysis" where
  "dismissiveLLM iss p text =
     Inr \<lparr>is_relevant = False, relevance_score = 0.1, llm_reason = ''unrelated''\<rparr>"

definition sampleStrategy :: LLMAnalysisStrategy where
  "sampleStrategy = newLLMAnalysisStrategy None None"

text \<open>
  A stand-in for the inherited methods: a symbol is relevant when its name or qualified
  name contains a primary keyword; the base confidence grows with the number of files.
\<close>

definition sampleBase :: BaseAnalysisStrategy where
  "sampleBase =
     \<lparr>calculateSymbolRelevance =
        (\<lambda>symbol kws.
           if list_ex (\<lambda>k. includesStr (toLowerCase (name symbol @ '' '' @ qualifiedName symbol))
                           (toLowerCase k)) (primary kws)
           then 1 else 0),
      superCalculateConfidence = (\<lambda>result. min (real (length (files result)) * 0.2) 0.8)\<rparr>"

definition getUserController :: Symbol where
  "getUserController =
     \<lparr>name = ''getUserController'', qualifiedName = ''UserController.getUserController'',
      kind = 6, filePath = ''/ws/src/controllers/UserController.ts'',
      position_start_row = 12, position_start_column = 2, comment = Some ''GET /users/:id''\<rparr>"

definition postUserAt :: "nat \<Rightarrow> Symbol" where
  "postUserAt row =
     \<lparr>name = ''postUser'', qualifiedName = ''UserService.postUser'',
      kind = 6, filePath = ''/ws/src/services/UserService.ts'',
      position_start_row = row, position_start_column = 2, comment = None\<rparr>"

definition listUsers :: Symbol where
  "listUsers =
     \<lparr>name = ''listUsers'', qualifiedName = ''Users.listUsers'',
      kind = 12, filePath = ''/ws/src/users.ts'',
      position_start_row = 3, position_start_column = 0, comment = Some ''GET /users''\<rparr>"

definition usersKeywords :: SearchKeywords where
  "usersKeywords = \<lparr>primary = [''users''], secondary = [], technical = [], contextual = []\<rparr>"

text \<open>Three symbol tables: two symbols, one symbol, and one in which eight symbols precede \<open>getUserController\<close>.\<close>

definition symbolContext :: AnalysisContext where
  "symbolContext = sampleContext\<lparr>symbolAnalysis := Some [postUserAt 1, getUserController]\<rparr>"

definition listContext :: AnalysisContext where
  "listContext = sampleContext\<lparr>symbolAnalysis := Some [listUsers]\<rparr>"

definition crowdedContext :: AnalysisContext where
  "crowdedContext =
     sampleContext\<lparr>symbolAnalysis :=
       Some [postUserAt 1, postUserAt 2, postUserAt 3, postUserAt 4, postUserAt 5, postUserAt 6,
             postUserAt 7, postUserAt 8, getUserController]\<rparr>"

text \<open>One result with an explained file, and the same result with the reason empty.\<close>

definition explainedResult :: AnalysisResult where
  "explainedResult =
     \<lparr>files = [\<lparr>path = ''src/services/UserService.ts'', content = ''class UserService'',
                 relevanceScore = 0.9, reason = Some ''defines getUser''\<rparr>],
      symbols = [], apis = []\<rparr>"

definition plainResult :: AnalysisResult where
  "plainResult =
     \<lparr>files = [\<lparr>path = ''src/services/UserService.ts'', content = ''class UserService'',
                 relevanceScore = 0.9, reason = Some []\<rparr>],
      symbols = [], apis = []\<rparr>"

text \<open>The two candidates that the filter finds in the sample workspace.\<close>

definition userServiceCandidate :: AnalysisFile where
  "userServiceCandidate =
     \<lparr>path = ''src/services/UserService.ts'', content = ''class UserService { getUser() {} }'',
      relevanceScore = 0.5, reason = None\<rparr>"

definition loggerCandidate :: AnalysisFile where
  "loggerCandidate =
     \<lparr>path = ''src/utils/logger.ts'', content = ''export const log = console.log'',
      relevanceScore = 0.18, reason = None\<rparr>"

section \<open>The exclusion penalty\<close>

text \<open>
  C4. A path that matches at least one exclusion pattern receives exactly 0.1 times the
  score it has before the penalty step, for every keyword set; that score already
  contains the three bonuses.
\<close>

theorem excluded_path_scores_a_tenth:
  "some excludePatterns p \<Longrightarrow>
   calculateFilePathScore p kws = 0.1 * scoreBeforePenalty p kws"
  by (simp add: calculateFilePathScore_def)

theorem excluded_path_scores_a_tenth_witness:
  "some excludePatterns ''/src/dist/UserService.png'' \<and>
   scoreBeforePenalty ''/src/dist/UserService.png'' sampleKeywords = 3.8 \<and>
   calculateFilePathScore ''/src/dist/UserService.png'' sampleKeywords = 0.38"
proof -
  have excluded: "some excludePatterns ''/src/dist/UserService.png''"
    by code_simp
  have before: "scoreBeforePenalty ''/src/dist/UserService.png'' sampleKeywords = 3.8"
    by code_simp
  show ?thesis
    using excluded_path_scores_a_tenth [OF excluded, of sampleKeywords] excluded before by simp
qed

section \<open>Pass 1 of the candidate filter\<close>

lemma update_entry:
  "(p, s) \<in> set (AList.update k v al) \<Longrightarrow> (p, s) = (k, v) \<or> (p, s) \<in> set al"
  by (induction al) (auto split: if_splits)

lemma pass1_invariant:
  "\<forall>(p, s) \<in> set acc. s = calculateFilePathScore p kws \<and> 0.3 < s \<Longrightarrow>
   \<forall>(p, s) \<in> set (foldl (\<lambda>scores f.
              let score = calculateFilePathScore f kws
              in if score > 0.3 then AList.update f score scores else scores) acc fs).
      s = calculateFilePathScore p kws \<and> 0.3 < s"
proof (induction fs arbitrary: acc)
  case Nil
  then show ?case by simp
next
  case (Cons f fs)
  show ?case
    unfolding foldl_Cons
  proof (rule Cons.IH)
    show "\<forall>(p, s)\<in>set (let score = calculateFilePathScore f kws
                      in if 0.3 < score then AList.update f score acc else acc).
           s = calculateFilePathScore p kws \<and> 0.3 < s"
      using Cons.prems by (auto simp: Let_def dest!: update_entry)
  qed
qed

lemma fileScores_entry:
  "(p, s) \<in> set (fileScores context kws) \<Longrightarrow> s = calculateFilePathScore p kws \<and> 0.3 < s"
  using pass1_invariant [of "[]" kws "filteredFiles context"]
  unfolding fileScores_def by auto

lemma topCandidates_scored:
  assumes "p \<in> set (topCandidates this context kws)"
  shows "\<exists>s. (p, s) \<in> set (fileScores context kws)"
proof -
  from assms obtain e
    where e: "e \<in> set (take (maxFilesToAnalyze this * 2) (sortByScoreDesc snd (fileScores context kws)))"
      and p: "p = fst e"
    unfolding topCandidates_def by auto
  from e have "e \<in> set (sortByScoreDesc snd (fileScores context kws))"
    by (rule in_set_takeD)
  then have "e \<in> set (fileScores context kws)"
    by (simp add: sortByScoreDesc_def)
  with p show ?thesis by (cases e) auto
qed

text \<open>
  C3. Whatever the candidate paths and the keywords, pass 1 keeps at most
  \<open>2 \<times> maxFilesToAnalyze\<close> paths, and the path score of every kept path is strictly
  above the threshold 0.3.
\<close>

theorem pass1_bounded_and_above_threshold:
  "length (topCandidates this context kws) \<le> 2 * maxFilesToAnalyze this \<and>
   (\<forall>p \<in> set (topCandidates this context kws). 0.3 < calculateFilePathScore p kws)"
proof
  show "length (topCandidates this context kws) \<le> 2 * maxFilesToAnalyze this"
    by (simp add: topCandidates_def)
  show "\<forall>p \<in> set (topCandidates this context kws). 0.3 < calculateFilePathScore p kws"
    using topCandidates_scored fileScores_entry by blast
qed

theorem pass1_bounded_and_above_threshold_witness:
  "''src/services/UserService.ts'' \<in> set (topCandidates sampleStrategy sampleContext sampleKeywords) \<and>
   0.3 < calculateFilePathScore ''src/services/UserService.ts'' sampleKeywords \<and>
   length (topCandidates sampleStrategy sampleContext sampleKeywords) \<le> 2 * maxFilesToAnalyze sampleStrategy"
proof -
  have kept: "''src/services/UserService.ts'' \<in> set (topCandidates sampleStrategy sampleContext sampleKeywords)"
    by code_simp
  show ?thesis
    using pass1_bounded_and_above_threshold [of sampleStrategy sampleContext sampleKeywords] kept
    by blast
qed

section \<open>Pass 2 of the candidate filter\<close>

text \<open>Pass 2 finds in the score map the path score of every path that pass 1 kept.\<close>

lemma topCandidates_lookup:
  assumes "p \<in> set (topCandidates this context kws)"
  shows "map_of (fileScores context kws) p = Some (calculateFilePathScore p kws)"
proof -
  from assms obtain s where "(p, s) \<in> set (fileScores context kws)"
    using topCandidates_scored by blast
  then have "p \<in> fst ` set (fileScores context kws)" by force
  then have "map_of (fileScores context kws) p \<noteq> None"
    by (simp add: map_of_eq_None_iff)
  then obtain s' where found: "map_of (fileScores context kws) p = Some s'" by blast
  then have "(p, s') \<in> set (fileScores context kws)" by (rule map_of_SomeD)
  then have "s' = calculateFilePathScore p kws" using fileScores_entry by blast
  with found show ?thesis by simp
qed

lemma secondPassStep_keeps:
  assumes inv: "\<forall>c \<in> set candidates. wellScored services context kws c"
    and stored: "map_of scores f = Some (calculateFilePathScore f kws)"
  shows "\<forall>c \<in> set (secondPassStep services context kws scores candidates f).
           wellScored services context kws c"
proof (cases "loadFileContent services (pathJoin services (workspacePath context) f)")
  case None
  with inv show ?thesis by (simp add: secondPassStep_def)
next
  case (Some t)
  show ?thesis
  proof (cases "calculateContentScore services t kws")
    case (Inl e)
    with Some inv show ?thesis by (simp add: secondPassStep_def)
  next
    case (Inr contentScore)
    show ?thesis
    proof (cases "t \<noteq> [] \<and> 0.5 < calculateFilePathScore f kws + contentScore")
      case True
      let ?entry = "\<lparr>path = f, content = take 4000 t,
          relevanceScore = min ((calculateFilePathScore f kws + contentScore) / 10) 1,
          reason = None\<rparr>"
      from True Some Inr stored
      have "secondPassStep services context kws scores candidates f = candidates @ [?entry]"
        by (simp add: secondPassStep_def Let_def)
      moreover from True Some Inr have "wellScored services context kws ?entry"
        by (simp add: wellScored_def)
      ultimately show ?thesis using inv by simp
    next
      case False
      with Some Inr stored inv show ?thesis
        by (auto simp: secondPassStep_def Let_def)
    qed
  qed
qed

lemma secondPass_keeps:
  assumes "\<forall>c \<in> set candidates. wellScored services context kws c"
    and "\<forall>f \<in> set fs. map_of scores f = Some (calculateFilePathScore f kws)"
  shows "\<forall>c \<in> set (foldl (secondPassStep services context kws scores) candidates fs).
           wellScored services context kws c"
  using assms
proof (induction fs arbitrary: candidates)
  case Nil
  then show ?case by simp
next
  case (Cons f fs)
  from Cons.prems
  have "\<forall>c \<in> set (secondPassStep services context kws scores candidates f).
          wellScored services context kws c"
    by (intro secondPassStep_keeps) simp_all
  moreover from Cons.prems
  have "\<forall>f \<in> set fs. map_of scores f = Some (calculateFilePathScore f kws)" by simp
  ultimately show ?case
    unfolding foldl_Cons by (rule Cons.IH)
qed

lemma findCandidateFiles_wellScored:
  assumes "c \<in> set (findCandidateFiles services this context kws)"
  shows "wellScored services context kws c"
proof -
  have "\<forall>c \<in> set (foldl (secondPassStep services context kws (fileScores context kws)) []
                      (topCandidates this context kws)).
          wellScored services context kws c"
    by (intro secondPass_keeps) (simp_all add: topCandidates_lookup)
  with assms show ?thesis
    by (simp add: findCandidateFiles_def sortByScoreDesc_def Let_def)
qed

text \<open>
  C7. Every entry that the candidate filter returns has a relevance score in [0, 1].
  The file of the entry was read and its content scored; the path score of the entry's
  path and that content score add up to more than 0.5, and the stored score is this
  sum divided by 10 and capped at 1.
\<close>

theorem candidate_scores_normalised:
  "\<forall>c \<in> set (findCandidateFiles services this context kws).
     0 \<le> relevanceScore c \<and> relevanceScore c \<le> 1 \<and>
     (\<exists>t contentScore.
        loadFileContent services (pathJoin services (workspacePath context) (path c)) = Some t \<and>
        calculateContentScore services t kws = Inr contentScore \<and>
        0.5 < calculateFilePathScore (path c) kws + contentScore \<and>
        relevanceScore c = min ((calculateFilePathScore (path c) kws + contentScore) / 10) 1)"
proof
  fix c assume "c \<in> set (findCandidateFiles services this context kws)"
  then have "wellScored services context kws c" by (rule findCandidateFiles_wellScored)
  then obtain t contentScore
    where loaded: "loadFileContent services (pathJoin services (workspacePath context) (path c)) = Some t"
      and scored: "calculateContentScore services t kws = Inr contentScore"
      and above: "0.5 < calculateFilePathScore (path c) kws + contentScore"
      and kept: "relevanceScore c = min ((calculateFilePathScore (path c) kws + contentScore) / 10) 1"
    by (auto simp: wellScored_def split: option.splits sum.splits)
  from above kept have "0 \<le> relevanceScore c" "relevanceScore c \<le> 1" by auto
  with loaded scored above kept
  show "0 \<le> relevanceScore c \<and> relevanceScore c \<le> 1 \<and>
     (\<exists>t contentScore.
        loadFileContent services (pathJoin services (workspacePath context) (path c)) = Some t \<and>
        calculateContentScore services t kws = Inr contentScore \<and>
        0.5 < calculateFilePathScore (path c) kws + contentScore \<and>
        relevanceScore c = min ((calculateFilePathScore (path c) kws + contentScore) / 10) 1)"
    by blast
qed

lemma sample_candidates:
  "findCandidateFiles (sampleServices llm) sampleStrategy sampleContext sampleKeywords =
     [userServiceCandidate, loggerCandidate]"
  by code_simp

theorem candidate_scores_normalised_witness:
  "userServiceCandidate \<in> set (findCandidateFiles (sampleServices failingLLM) sampleStrategy sampleContext sampleKeywords) \<and>
   calculateFilePathScore (path userServiceCandidate) sampleKeywords = 4.8 \<and>
   calculateContentScore (sampleServices failingLLM) (content userServiceCandidate) sampleKeywords = Inr 0.2 \<and>
   relevanceScore userServiceCandidate = 0.5 \<and>
   0 \<le> relevanceScore userServiceCandidate \<and> relevanceScore userServiceCandidate \<le> 1"
proof -
  have found: "userServiceCandidate \<in> set (findCandidateFiles (sampleServices failingLLM) sampleStrategy sampleContext sampleKeywords)"
    by (simp add: sample_candidates)
  have pathScore: "calculateFilePathScore (path userServiceCandidate) sampleKeywords = 4.8"
    by code_simp
  have contentScore: "calculateContentScore (sampleServices failingLLM) (content userServiceCandidate) sampleKeywords = Inr 0.2"
    by code_simp
  have score: "relevanceScore userServiceCandidate = 0.5"
    by (simp add: userServiceCandidate_def)
  show ?thesis
    using candidate_scores_normalised [of "sampleServices failingLLM" sampleStrategy sampleContext sampleKeywords]
      found pathScore contentScore score
    by blast
qed

section \<open>The batch loop\<close>

lemma pushResult_append: "pushResult acc r = acc @ pushResult [] r"
  by (simp add: pushResult_def split: option.splits)

lemma promiseAll_resolved: "\<forall>p \<in> set ps. \<not> isl p \<Longrightarrow> promiseAll ps = Inr (map projr ps)"
proof (induction ps)
  case Nil
  then show ?case by simp
next
  case (Cons p ps)
  then show ?case by (cases p) simp_all
qed

lemma pushed_contribution:
  assumes "\<not> rejects services iss f"
  shows "pushResult acc (projr (analyzeInBatch services iss f)) = acc @ contribution services iss f"
proof (cases "analyzeInBatch services iss f")
  case (Inl e)
  with assms show ?thesis by (simp add: rejects_def)
next
  case (Inr r)
  then show ?thesis
    using pushResult_append [of acc r] by (simp add: contribution_def)
qed

lemma foldl_pushResult:
  "\<forall>f \<in> set fs. \<not> rejects services iss f \<Longrightarrow>
   foldl pushResult acc (map (projr \<circ> analyzeInBatch services iss) fs) =
     acc @ concat (map (contribution services iss) fs)"
  by (induction fs arbitrary: acc) (simp_all add: pushed_contribution)

text \<open>With a positive batch size the loop ends, with a list or with a rejection.\<close>

lemma batchLoop_ends:
  assumes "0 < step"
  shows "\<exists>outcome. batchLoop services iss step fs i acc = Some outcome"
proof (induction "length fs - i" arbitrary: i acc rule: less_induct)
  case less
  show ?case
  proof (cases "i < length fs")
    case False
    then show ?thesis by (subst batchLoop.simps) simp
  next
    case True
    with assms have smaller: "length fs - (i + step) < length fs - i" by arith
    show ?thesis
    proof (cases "promiseAll (map (analyzeInBatch services iss) (slice i (i + step) fs))")
      case (Inl e)
      with True show ?thesis by (subst batchLoop.simps) simp
    next
      case (Inr batchResults)
      from smaller
      have "\<exists>outcome. batchLoop services iss step fs (i + step)
                        (foldl pushResult acc batchResults) = Some outcome"
        by (rule less)
      with True Inr show ?thesis by (subst batchLoop.simps) simp
    qed
  qed
qed

text \<open>
  When, moreover, no promise rejects, the loop returns the contributions of the files
  in their order.
\<close>

lemma batchLoop_returns:
  assumes "0 < step" and resolved: "\<forall>f \<in> set fs. \<not> rejects services iss f"
  shows "batchLoop services iss step fs i acc =
           Some (Inr (acc @ concat (map (contribution services iss) (drop i fs))))"
proof (induction "length fs - i" arbitrary: i acc rule: less_induct)
  case less
  show ?case
  proof (cases "i < length fs")
    case False
    then show ?thesis by (subst batchLoop.simps) simp
  next
    case True
    with assms have "length fs - (i + step) < length fs - i" by arith
    then have IH: "\<And>acc'. batchLoop services iss step fs (i + step) acc' =
           Some (Inr (acc' @ concat (map (contribution services iss) (drop (i + step) fs))))"
      by (rule less)
    let ?batch = "take step (drop i fs)"
    have "set ?batch \<subseteq> set fs"
      by (meson order_trans set_drop_subset set_take_subset)
    with resolved have batch: "\<forall>f \<in> set ?batch. \<not> rejects services iss f" by blast
    then have "\<forall>p \<in> set (map (analyzeInBatch services iss) ?batch). \<not> isl p"
      by (simp add: rejects_def)
    then have all: "promiseAll (map (analyzeInBatch services iss) ?batch) =
                      Inr (map projr (map (analyzeInBatch services iss) ?batch))"
      by (rule promiseAll_resolved)
    have split: "drop i fs = ?batch @ drop (i + step) fs"
      by (metis append_take_drop_id drop_drop add.commute)
    have "batchLoop services iss step fs i acc =
          batchLoop services iss step fs (i + step)
            (acc @ concat (map (contribution services iss) ?batch))"
      using True
      by (subst batchLoop.simps) (simp add: slice_def all foldl_pushResult [OF batch])
    also have "\<dots> = Some (Inr (acc @ concat (map (contribution services iss) (drop i fs))))"
      by (subst (2) split) (simp add: IH del: append_take_drop_id)
    finally show ?thesis .
  qed
qed

lemma llmAnalyzedFiles_eq:
  assumes "0 < batchSize this"
    and "\<forall>f \<in> set (filesToAnalyze services this context kws). \<not> rejects services (issue context) f"
  shows "llmAnalyzedFiles services this context kws =
     Some (Inr (concat (map (contribution services (issue context))
        (filesToAnalyze services this context kws))))"
  using batchLoop_returns [OF assms, of 0 "[]"]
  by (simp add: llmAnalyzedFiles_def)

lemma concat_singletons: "\<forall>x \<in> set xs. g x = [x] \<Longrightarrow> concat (map g xs) = xs"
  by (induction xs) auto

lemma constructor_batchSize: "0 < batchSize (newLLMAnalysisStrategy b m)"
  by (simp add: newLLMAnalysisStrategy_def orDefault_def split: option.splits)

lemma sampleStrategy_fields: "batchSize sampleStrategy = 3" "maxFilesToAnalyze sampleStrategy = 8"
  by (simp_all add: sampleStrategy_def newLLMAnalysisStrategy_def orDefault_def)

lemma sample_filesToAnalyze:
  "filesToAnalyze (sampleServices llm) sampleStrategy sampleContext sampleKeywords =
     [userServiceCandidate, loggerCandidate]"
  by (simp add: filesToAnalyze_def slice_def sample_candidates sampleStrategy_fields)

text \<open>
  C1. When the list of analysed files is empty after the last batch, the strategy
  returns the first five entries of the candidate filter's output, as they are and in
  their order.
\<close>

theorem zero_retained_falls_back_to_top5:
  "llmAnalyzedFiles services this context kws = Some (Inr []) \<Longrightarrow>
   findRelevantFiles services this context kws =
     Some (Inr (take 5 (findCandidateFiles services this context kws)))"
  by (simp add: findRelevantFiles_def slice_def Let_def)

theorem zero_retained_falls_back_to_top5_witness:
  "llmAnalyzedFiles (sampleServices dismissiveLLM) sampleStrategy sampleContext sampleKeywords = Some (Inr []) \<and>
   findRelevantFiles (sampleServices dismissiveLLM) sampleStrategy sampleContext sampleKeywords =
     Some (Inr [userServiceCandidate, loggerCandidate])"
proof -
  have resolves: "\<not> rejects (sampleServices dismissiveLLM) iss f" for iss f
    by (simp add: rejects_def analyzeInBatch_def sampleServices_def dismissiveLLM_def)
  have none: "contribution (sampleServices dismissiveLLM) iss f = []" for iss f
    by (simp add: contribution_def analyzeInBatch_def pushResult_def sampleServices_def dismissiveLLM_def)
  have empty: "llmAnalyzedFiles (sampleServices dismissiveLLM) sampleStrategy sampleContext sampleKeywords = Some (Inr [])"
    by (simp add: llmAnalyzedFiles_eq sampleStrategy_fields resolves none)
  show ?thesis
    using zero_retained_falls_back_to_top5 [OF empty] empty by (simp add: sample_candidates)
qed

text \<open>
  When every inference call of a batch throws a value whose message can be read, all
  promises of the batch resolve and the loop body appends exactly the files of the
  batch, each as the candidate filter produced it, heuristic score included. When no
  promise of any batch rejects, these files are in the list accumulated at the end of
  the loop, and \<open>findRelevantFiles\<close> returns a list.
\<close>

lemma failed_batch_degrades_when_message_readable:
  assumes step: "0 < batchSize this"
    and throws: "\<forall>f \<in> set (batchOf services this context kws k).
                   \<exists>e msg. analyzeCodeRelevance services (issue context) (path f) (content f) = Inl e \<and>
                           errorMessage e = Inr msg"
    and resolved: "\<forall>f \<in> set (filesToAnalyze services this context kws).
                     \<not> rejects services (issue context) f"
  shows "promiseAll (map (analyzeInBatch services (issue context)) (batchOf services this context kws k)) =
           Inr (map projr (map (analyzeInBatch services (issue context))
                  (batchOf services this context kws k))) \<and>
         foldl pushResult acc
           (map projr (map (analyzeInBatch services (issue context))
              (batchOf services this context kws k))) =
           acc @ batchOf services this context kws k \<and>
         (\<exists>analyzed. llmAnalyzedFiles services this context kws = Some (Inr analyzed) \<and>
                     set (batchOf services this context kws k) \<subseteq> set analyzed) \<and>
         (\<exists>r. findRelevantFiles services this context kws = Some (Inr r))"
proof -
  let ?batch = "batchOf services this context kws k"
  let ?files = "filesToAnalyze services this context kws"
  let ?analyzed = "concat (map (contribution services (issue context)) ?files)"
  have among: "set ?batch \<subseteq> set ?files"
    unfolding batchOf_def slice_def
    by (meson order_trans set_drop_subset set_take_subset)
  with resolved have batch: "\<forall>f \<in> set ?batch. \<not> rejects services (issue context) f" by blast
  then have "\<forall>p \<in> set (map (analyzeInBatch services (issue context)) ?batch). \<not> isl p"
    by (simp add: rejects_def)
  then have all: "promiseAll (map (analyzeInBatch services (issue context)) ?batch) =
                    Inr (map projr (map (analyzeInBatch services (issue context)) ?batch))"
    by (rule promiseAll_resolved)
  have degraded: "contribution services (issue context) f = [f]" if "f \<in> set ?batch" for f
    using throws that by (auto simp: contribution_def analyzeInBatch_def pushResult_def)
  then have whole: "concat (map (contribution services (issue context)) ?batch) = ?batch"
    by (intro concat_singletons) simp
  have pushed: "foldl pushResult acc
                  (map projr (map (analyzeInBatch services (issue context)) ?batch)) = acc @ ?batch"
    using foldl_pushResult [OF batch, of acc] whole by simp
  have accumulated: "llmAnalyzedFiles services this context kws = Some (Inr ?analyzed)"
    using step resolved by (rule llmAnalyzedFiles_eq)
  have "set ?batch \<subseteq> set ?analyzed"
  proof
    fix f assume member: "f \<in> set ?batch"
    with among have "f \<in> set ?files" by blast
    moreover have "f \<in> set (contribution services (issue context) f)"
      using degraded [OF member] by simp
    ultimately show "f \<in> set ?analyzed" by auto
  qed
  with accumulated have kept: "\<exists>analyzed. llmAnalyzedFiles services this context kws = Some (Inr analyzed) \<and>
                     set ?batch \<subseteq> set analyzed"
    by blast
  have returns: "\<exists>r. findRelevantFiles services this context kws = Some (Inr r)"
    by (simp add: findRelevantFiles_def accumulated Let_def)
  from all pushed kept returns show ?thesis by blast
qed

text \<open>
  C2. The claim does not hold of the code when an inference call rejects with
  \<open>undefined\<close> (or \<open>null\<close>). In the sample workspace the first batch is both candidates
  and each call throws; the \<open>catch\<close> of the callback reads \<open>error.message\<close>, which
  throws a \<open>TypeError\<close>, so the promise rejects, \<open>Promise.all\<close> rejects, and the
  \<open>TypeError\<close> leaves \<open>findRelevantFiles\<close>.
\<close>

theorem undefined_rejection_escapes_findRelevantFiles:
  "batchOf (sampleServices undefinedRejectingLLM) sampleStrategy sampleContext sampleKeywords 0 =
     [userServiceCandidate, loggerCandidate] \<and>
   analyzeCodeRelevance (sampleServices undefinedRejectingLLM) (issue sampleContext)
     (path userServiceCandidate) (content userServiceCandidate) = Inl ThrownUndefined \<and>
   analyzeCodeRelevance (sampleServices undefinedRejectingLLM) (issue sampleContext)
     (path loggerCandidate) (content loggerCandidate) = Inl ThrownUndefined \<and>
   findRelevantFiles (sampleServices undefinedRejectingLLM) sampleStrategy sampleContext sampleKeywords =
     Some (Inl (TypeError ''Cannot read properties of undefined''))"
proof -
  have batch: "batchOf (sampleServices undefinedRejectingLLM) sampleStrategy sampleContext sampleKeywords 0 =
     [userServiceCandidate, loggerCandidate]"
    by (simp add: batchOf_def slice_def sample_filesToAnalyze sampleStrategy_fields)
  have throws: "analyzeCodeRelevance (sampleServices undefinedRejectingLLM) iss p t = Inl ThrownUndefined"
    for iss p t
    by (simp add: sampleServices_def undefinedRejectingLLM_def)
  have "llmAnalyzedFiles (sampleServices undefinedRejectingLLM) sampleStrategy sampleContext sampleKeywords =
          Some (Inl (TypeError ''Cannot read properties of undefined''))"
    unfolding llmAnalyzedFiles_def sample_filesToAnalyze sampleStrategy_fields
    by (subst batchLoop.simps) (simp add: slice_def analyzeInBatch_def throws)
  then have "findRelevantFiles (sampleServices undefinedRejectingLLM) sampleStrategy sampleContext sampleKeywords =
          Some (Inl (TypeError ''Cannot read properties of undefined''))"
    by (simp add: findRelevantFiles_def)
  with batch throws show ?thesis by simp
qed

section \<open>Bounds on the result sizes\<close>

text \<open>
  C6. \<open>findRelevantFiles\<close> returns at most 10 entries, fallback included,
  \<open>findRelevantSymbols\<close> at most 10 and \<open>findRelevantApis\<close> at most 8, for every
  context and keyword set. The batch size is positive, as the constructor makes it:
  then \<open>findRelevantFiles\<close> ends, every list it returns has at most 10 entries, and
  it does return a list when no promise of a batch rejects.
\<close>

theorem result_sizes_bounded:
  assumes "0 < batchSize this"
  shows "(\<exists>outcome. findRelevantFiles services this context kws = Some outcome) \<and>
         (\<forall>r. findRelevantFiles services this context kws = Some (Inr r) \<longrightarrow> length r \<le> 10) \<and>
         ((\<forall>f \<in> set (filesToAnalyze services this context kws). \<not> rejects services (issue context) f) \<longrightarrow>
            (\<exists>r. findRelevantFiles services this context kws = Some (Inr r) \<and> length r \<le> 10)) \<and>
         length (findRelevantSymbols base services context kws) \<le> 10 \<and>
         length (findRelevantApis base services context kws) \<le> 8"
proof (intro conjI impI allI)
  from batchLoop_ends [OF assms]
  obtain outcome where "llmAnalyzedFiles services this context kws = Some outcome"
    unfolding llmAnalyzedFiles_def by blast
  then show "\<exists>outcome. findRelevantFiles services this context kws = Some outcome"
    by (cases outcome) (simp_all add: findRelevantFiles_def Let_def)
next
  fix r assume "findRelevantFiles services this context kws = Some (Inr r)"
  then show "length r \<le> 10"
    by (auto simp: findRelevantFiles_def Let_def slice_def split: option.splits sum.splits if_splits)
next
  assume "\<forall>f \<in> set (filesToAnalyze services this context kws). \<not> rejects services (issue context) f"
  with assms have "llmAnalyzedFiles services this context kws =
     Some (Inr (concat (map (contribution services (issue context))
        (filesToAnalyze services this context kws))))"
    by (rule llmAnalyzedFiles_eq)
  then show "\<exists>r. findRelevantFiles services this context kws = Some (Inr r) \<and> length r \<le> 10"
    by (auto simp: findRelevantFiles_def Let_def slice_def)
next
  show "length (findRelevantSymbols base services context kws) \<le> 10"
    by (simp add: findRelevantSymbols_def slice_def split: option.splits)
next
  show "length (findRelevantApis base services context kws) \<le> 8"
    by (simp add: findRelevantApis_def slice_def split: option.splits)
qed

theorem result_sizes_bounded_witness:
  "0 < batchSize sampleStrategy \<and>
   (\<exists>r. findRelevantFiles (sampleServices failingLLM) sampleStrategy crowdedContext sampleKeywords =
           Some (Inr r) \<and> length r \<le> 10) \<and>
   length (findRelevantSymbols sampleBase (sampleServices failingLLM) crowdedContext sampleKeywords) \<le> 10 \<and>
   length (findRelevantApis sampleBase (sampleServices failingLLM) crowdedContext sampleKeywords) \<le> 8"
proof -
  have step: "0 < batchSize sampleStrategy"
    by (simp add: sampleStrategy_fields)
  have resolved: "\<forall>f \<in> set (filesToAnalyze (sampleServices failingLLM) sampleStrategy crowdedContext sampleKeywords).
      \<not> rejects (sampleServices failingLLM) (issue crowdedContext) f"
    by (simp add: rejects_def analyzeInBatch_def sampleServices_def failingLLM_def)
  show ?thesis
    using result_sizes_bounded [OF step, of "sampleServices failingLLM" crowdedContext sampleKeywords sampleBase]
      step resolved
    by blast
qed

section \<open>Symbols\<close>

lemma foldl_push_filter:
  "foldl (\<lambda>acc x. if P x then acc @ [g x] else acc) acc xs = acc @ map g (filter P xs)"
  by (induction xs arbitrary: acc) auto

text \<open>
  C10. \<open>findRelevantSymbols\<close> keeps the order of the symbol table: its result is the
  first ten of the symbols whose relevance exceeds 0.5, in input order, each turned into
  its entry. Nothing is sorted by relevance.
\<close>

theorem findRelevantSymbols_is_ordered_filter:
  "findRelevantSymbols base services context kws =
     (case symbolAnalysis context of
        None \<Rightarrow> []
      | Some syms \<Rightarrow>
          take 10 (map (symbolEntry services context)
                     (filter (\<lambda>symbol. 0.5 < calculateSymbolRelevance base symbol kws) syms)))"
  by (simp add: findRelevantSymbols_def slice_def Let_def foldl_push_filter split: option.splits)


section \<open>Confidence\<close>

text \<open>
  C5. The confidence of the model-assisted strategy lies in [0, 1]. A result in which
  some file carries a non-empty reason has a confidence that is not below that of the
  same result without reasons; it is the latter plus 0.2, capped at 1, hence strictly
  greater unless the result without reasons is at the cap already. The inherited base
  confidence enters through \<open>baselineContract\<close>.
\<close>

theorem confidence_in_unit_interval_and_reason_bonus:
  assumes "baselineContract base result result0"
  shows "0 \<le> calculateConfidence base result \<and> calculateConfidence base result \<le> 1 \<and>
         (hasReasons result \<and> \<not> hasReasons result0 \<and> eraseReasons result0 = eraseReasons result \<longrightarrow>
            calculateConfidence base result0 \<le> calculateConfidence base result \<and>
            calculateConfidence base result = min (calculateConfidence base result0 + 0.2) 1 \<and>
            (calculateConfidence base result0 < 1 \<longrightarrow>
               calculateConfidence base result0 < calculateConfidence base result))"
  using assms by (auto simp: baselineContract_def calculateConfidence_def Let_def)

theorem confidence_in_unit_interval_and_reason_bonus_witness:
  "baselineContract sampleBase explainedResult plainResult \<and>
   hasReasons explainedResult \<and> \<not> hasReasons plainResult \<and>
   eraseReasons plainResult = eraseReasons explainedResult \<and>
   calculateConfidence sampleBase plainResult = 0.2 \<and>
   calculateConfidence sampleBase explainedResult = 0.4 \<and>
   calculateConfidence sampleBase plainResult < calculateConfidence sampleBase explainedResult"
proof -
  have contract: "baselineContract sampleBase explainedResult plainResult"
    by (simp add: baselineContract_def sampleBase_def explainedResult_def plainResult_def)
  have explained: "hasReasons explainedResult"
    by (simp add: hasReasons_def truthy_def explainedResult_def)
  have plain: "\<not> hasReasons plainResult"
    by (simp add: hasReasons_def truthy_def plainResult_def)
  have same: "eraseReasons plainResult = eraseReasons explainedResult"
    by (simp add: eraseReasons_def explainedResult_def plainResult_def)
  have low: "calculateConfidence sampleBase plainResult = 0.2"
    by (simp add: calculateConfidence_def hasReasons_def truthy_def sampleBase_def plainResult_def)
  show ?thesis
    using confidence_in_unit_interval_and_reason_bonus [OF contract] contract explained plain same low
    by simp
qed

section \<open>Substrings\<close>

lemma includesStr_iff: "includesStr s t \<longleftrightarrow> (\<exists>p q. s = p @ t @ q)"
proof (induction s)
  case Nil
  then show ?case by simp
next
  case (Cons c cs)
  show ?case
  proof
    assume "includesStr (c # cs) t"
    then consider "prefix t (c # cs)" | "includesStr cs t" by auto
    then show "\<exists>p q. c # cs = p @ t @ q"
    proof cases
      case 1
      then obtain q where "c # cs = t @ q" by (auto simp: prefix_def)
      then have "c # cs = [] @ t @ q" by simp
      then show ?thesis by blast
    next
      case 2
      with Cons.IH obtain p q where "cs = p @ t @ q" by blast
      then have "c # cs = (c # p) @ t @ q" by simp
      then show ?thesis by blast
    qed
  next
    assume "\<exists>p q. c # cs = p @ t @ q"
    then obtain p q where eq: "c # cs = p @ t @ q" by blast
    show "includesStr (c # cs) t"
    proof (cases p)
      case Nil
      with eq have "prefix t (c # cs)" by (simp add: prefix_def)
      then show ?thesis by simp
    next
      case (Cons d p')
      with eq have "cs = p' @ t @ q" by simp
      with Cons.IH have "includesStr cs t" by blast
      then show ?thesis by simp
    qed
  qed
qed

lemma includesStr_left: "includesStr a t \<Longrightarrow> includesStr (a @ b) t"
proof -
  assume "includesStr a t"
  then obtain p q where "a = p @ t @ q" unfolding includesStr_iff by blast
  then have "a @ b = p @ t @ (q @ b)" by simp
  then show ?thesis unfolding includesStr_iff by blast
qed

lemma includesStr_right: "includesStr b t \<Longrightarrow> includesStr (a @ b) t"
proof -
  assume "includesStr b t"
  then obtain p q where "b = p @ t @ q" unfolding includesStr_iff by blast
  then have "a @ b = (a @ p) @ t @ q" by simp
  then show ?thesis unfolding includesStr_iff by blast
qed

lemma includesStr_separated:
  assumes nonempty: "t \<noteq> []" and sep: "sep \<notin> set t" and inc: "includesStr (a @ sep # b) t"
  shows "includesStr a t \<or> includesStr b t"
proof -
  from inc obtain p q where eq: "a @ sep # b = p @ t @ q"
    unfolding includesStr_iff by blast
  then consider us where "a = p @ us" "us @ sep # b = t @ q"
    | us where "a @ us = p" "sep # b = us @ t @ q"
    by (auto simp: append_eq_append_conv2)
  then show ?thesis
  proof cases
    case 1
    from 1(2) consider vs where "us = t @ vs" | vs where "us @ vs = t" "sep # b = vs @ q"
      by (auto simp: append_eq_append_conv2)
    then show ?thesis
    proof cases
      case 1
      with \<open>a = p @ us\<close> have "a = p @ t @ vs" by simp
      then show ?thesis unfolding includesStr_iff by blast
    next
      case 2
      show ?thesis
      proof (cases vs)
        case Nil
        with 2 \<open>a = p @ us\<close> have "a = p @ t @ []" by simp
        then show ?thesis unfolding includesStr_iff by blast
      next
        case (Cons v vs')
        with 2 have "sep \<in> set t" by auto
        with sep show ?thesis by simp
      qed
    qed
  next
    case 2
    show ?thesis
    proof (cases us)
      case Nil
      with 2 nonempty have "sep \<in> set t" by (cases t) auto
      with sep show ?thesis by simp
    next
      case (Cons u us')
      with 2 have "b = us' @ t @ q" by simp
      then show ?thesis unfolding includesStr_iff by blast
    qed
  qed
qed

section \<open>APIs\<close>

lemma firstMethod_None: "firstMethod s ms = None \<longleftrightarrow> (\<forall>m \<in> set ms. \<not> includesStr s m)"
  by (induction ms) auto

lemma toLowerCase_append: "toLowerCase (a @ b) = toLowerCase a @ toLowerCase b"
  by (simp add: toLowerCase_def)

lemma toLowerCase_space: "toLowerCase (CHR '' '' # b) = CHR '' '' # toLowerCase b"
  by (simp add: toLowerCase_def toLowerChar_def upperAlphabet_def lowerAlphabet_def)

lemma httpMethods_plain: "m \<in> set httpMethods \<Longrightarrow> m \<noteq> [] \<and> CHR '' '' \<notin> set m"
  by (auto simp: httpMethods_def)

lemma httpMethods_apiTerms: "m \<in> set httpMethods \<Longrightarrow> m \<in> set apiTerms"
  by (auto simp: httpMethods_def apiTerms_def)

lemma extract_None:
  assumes "\<forall>m \<in> set httpMethods. \<not> includesStr (toLowerCase (name symbol)) m \<and>
                                 \<not> includesStr (toLowerCase (qualifiedName symbol)) m"
  shows "extractHttpMethod symbol = None"
proof -
  have "\<not> includesStr (toLowerCase (name symbol) @ CHR '' '' # toLowerCase (qualifiedName symbol)) m"
    if "m \<in> set httpMethods" for m
    using includesStr_separated [of m "CHR '' ''" "toLowerCase (name symbol)" "toLowerCase (qualifiedName symbol)"]
      httpMethods_plain [OF that] assms that by blast
  then show ?thesis
    by (simp add: extractHttpMethod_def firstMethod_None toLowerCase_append toLowerCase_space)
qed

lemma comment_makes_candidate:
  assumes "m \<in> set httpMethods" and "includesStr (toLowerCase (orElse (comment symbol) [])) m"
  shows "isApiRelated symbol"
proof -
  have "toLowerCase (name symbol @ '' '' @ qualifiedName symbol @ '' '' @ orElse (comment symbol) []) =
        toLowerCase (name symbol @ '' '' @ qualifiedName symbol @ '' '') @ toLowerCase (orElse (comment symbol) [])"
    by (simp add: toLowerCase_def)
  then have "includesStr (toLowerCase (name symbol @ '' '' @ qualifiedName symbol @ '' '' @ orElse (comment symbol) [])) m"
    using includesStr_right [OF assms(2)] by simp
  moreover have "m \<in> set apiTerms" using assms(1) by (rule httpMethods_apiTerms)
  ultimately show ?thesis
    unfolding isApiRelated_def Let_def list_ex_iff by blast
qed

text \<open>
  C9. The HTTP method of an API entry is read from the name and the qualified name of
  the symbol only: changing the comment changes neither \<open>extractHttpMethod\<close> nor the
  method of the entry. A symbol with no verb in its name and qualified name gets the
  method \<open>UNKNOWN\<close>, although a verb in its comment is enough to make it an API
  candidate.
\<close>

theorem http_method_ignores_comment:
  "extractHttpMethod (symbol\<lparr>comment := c\<rparr>) = extractHttpMethod symbol \<and>
   api_method (apiEntry services context (symbol\<lparr>comment := c\<rparr>)) = api_method (apiEntry services context symbol) \<and>
   ((\<forall>m \<in> set httpMethods. \<not> includesStr (toLowerCase (name symbol)) m \<and>
                            \<not> includesStr (toLowerCase (qualifiedName symbol)) m) \<longrightarrow>
      api_method (apiEntry services context symbol) = ''UNKNOWN'') \<and>
   ((\<exists>m \<in> set httpMethods. includesStr (toLowerCase (orElse (comment symbol) [])) m) \<longrightarrow>
      isApiRelated symbol)"
proof (intro conjI impI)
  show "extractHttpMethod (symbol\<lparr>comment := c\<rparr>) = extractHttpMethod symbol"
    by (simp add: extractHttpMethod_def)
  then show "api_method (apiEntry services context (symbol\<lparr>comment := c\<rparr>)) = api_method (apiEntry services context symbol)"
    by (simp add: apiEntry_def)
next
  assume "\<forall>m \<in> set httpMethods. \<not> includesStr (toLowerCase (name symbol)) m \<and>
                            \<not> includesStr (toLowerCase (qualifiedName symbol)) m"
  then have "extractHttpMethod symbol = None" by (rule extract_None)
  then show "api_method (apiEntry services context symbol) = ''UNKNOWN''"
    by (simp add: apiEntry_def orElse_def)
next
  assume "\<exists>m \<in> set httpMethods. includesStr (toLowerCase (orElse (comment symbol) [])) m"
  then show "isApiRelated symbol" using comment_makes_candidate by blast
qed

lemma collectApis_eq:
  "collectApis base services context kws syms =
     map (apiEntry services context)
       (filter (\<lambda>symbol. isApiRelated symbol \<and> 0.3 < calculateSymbolRelevance base symbol kws) syms)"
proof -
  have "foldl (\<lambda>relevantApis symbol.
              if isApiRelated symbol
              then
                let relevance = calculateSymbolRelevance base symbol kws
                in if relevance > 0.3
                   then relevantApis @ [apiEntry services context symbol]
                   else relevantApis
              else relevantApis) acc syms =
        acc @ map (apiEntry services context)
       (filter (\<lambda>symbol. isApiRelated symbol \<and> 0.3 < calculateSymbolRelevance base symbol kws) syms)" for acc
    by (induction syms arbitrary: acc) (simp_all add: Let_def)
  then show ?thesis by (simp add: collectApis_def)
qed

lemma getUserController_facts:
  assumes "name symbol = ''getUserController''"
  shows "isApiRelated symbol" and "extractHttpMethod symbol = Some ''GET''"
proof -
  have low: "toLowerCase ''getUserController'' = ''getusercontroller''" by code_simp
  have "includesStr ''getusercontroller'' ''controller''" by code_simp
  then have "includesStr (''getusercontroller'' @ toLowerCase ('' '' @ qualifiedName symbol @ '' '' @ orElse (comment symbol) [])) ''controller''"
    by (rule includesStr_left)
  then have "includesStr (toLowerCase (name symbol @ '' '' @ qualifiedName symbol @ '' '' @ orElse (comment symbol) [])) ''controller''"
    unfolding assms toLowerCase_append low .
  then show "isApiRelated symbol"
    unfolding isApiRelated_def Let_def list_ex_iff apiTerms_def by (intro bexI [of _ "''controller''"]) simp_all
  have "includesStr ''getusercontroller'' ''get''" by code_simp
  then have "includesStr (''getusercontroller'' @ toLowerCase ('' '' @ qualifiedName symbol)) ''get''"
    by (rule includesStr_left)
  then have "includesStr (toLowerCase (name symbol @ '' '' @ qualifiedName symbol)) ''get''"
    unfolding assms toLowerCase_append low .
  moreover have "toUpperCase ''get'' = ''GET''" by code_simp
  ultimately show "extractHttpMethod symbol = Some ''GET''"
    by (simp add: extractHttpMethod_def httpMethods_def del: includesStr.simps)
qed

text \<open>
  C8 (as amended). A symbol named \<open>getUserController\<close> with the comment
  \<open>GET /users/:id\<close>, whose relevance exceeds 0.3, is returned by
  \<open>findRelevantApis\<close> with the method \<open>GET\<close>, provided fewer than eight kept
  entries precede it: the result is cut after the eighth entry.
\<close>

theorem getUserController_returned_within_cap:
  assumes syms: "symbolAnalysis context = Some (before @ symbol # after)"
    and nm: "name symbol = ''getUserController''"
    and cm: "comment symbol = Some ''GET /users/:id''"
    and rel: "0.3 < calculateSymbolRelevance base symbol kws"
    and room: "length (collectApis base services context kws before) < 8"
  shows "apiEntry services context symbol \<in> set (findRelevantApis base services context kws) \<and>
         findRelevantApis base services context kws ! length (collectApis base services context kws before)
           = apiEntry services context symbol \<and>
         api_method (apiEntry services context symbol) = ''GET'' \<and>
         api_description (apiEntry services context symbol) = ''GET /users/:id''"
proof -
  let ?n = "length (collectApis base services context kws before)"
  let ?all = "collectApis base services context kws (before @ symbol # after)"
  have all: "?all = collectApis base services context kws before @
                      apiEntry services context symbol # collectApis base services context kws after"
    using getUserController_facts(1) [OF nm] rel by (simp add: collectApis_eq)
  have result: "findRelevantApis base services context kws = take 8 ?all"
    using syms by (simp add: findRelevantApis_def slice_def)
  have nth: "take 8 ?all ! ?n = apiEntry services context symbol"
    using room by (simp add: all nth_append)
  have "?n < length (take 8 ?all)" using room by (simp add: all)
  then have "take 8 ?all ! ?n \<in> set (take 8 ?all)" by (rule nth_mem)
  with nth result have mem: "apiEntry services context symbol \<in> set (findRelevantApis base services context kws)"
    by simp
  have "api_method (apiEntry services context symbol) = ''GET''"
    using getUserController_facts(2) [OF nm] by (simp add: apiEntry_def orElse_def)
  moreover have "api_description (apiEntry services context symbol) = ''GET /users/:id''"
    using cm by (simp add: apiEntry_def orElse_def)
  ultimately show ?thesis using mem nth result by simp
qed

theorem getUserController_returned_within_cap_witness:
  "symbolAnalysis symbolContext = Some ([postUserAt 1] @ getUserController # []) \<and>
   0.3 < calculateSymbolRelevance sampleBase getUserController sampleKeywords \<and>
   length (collectApis sampleBase (sampleServices failingLLM) symbolContext sampleKeywords [postUserAt 1]) = 1 \<and>
   findRelevantApis sampleBase (sampleServices failingLLM) symbolContext sampleKeywords ! 1 =
     apiEntry (sampleServices failingLLM) symbolContext getUserController \<and>
   api_method (apiEntry (sampleServices failingLLM) symbolContext getUserController) = ''GET''"
proof -
  have table: "symbolAnalysis symbolContext = Some ([postUserAt 1] @ getUserController # [])"
    by (simp add: symbolContext_def)
  have called: "name getUserController = ''getUserController''"
    by (simp add: getUserController_def)
  have commented: "comment getUserController = Some ''GET /users/:id''"
    by (simp add: getUserController_def)
  have relevant: "0.3 < calculateSymbolRelevance sampleBase getUserController sampleKeywords"
    by code_simp
  have one: "length (collectApis sampleBase (sampleServices failingLLM) symbolContext sampleKeywords [postUserAt 1]) = 1"
    by code_simp
  then have room: "length (collectApis sampleBase (sampleServices failingLLM) symbolContext sampleKeywords [postUserAt 1]) < 8"
    by simp
  show ?thesis
    using getUserController_returned_within_cap [OF table called commented relevant room]
      table relevant one
    by simp
qed

text \<open>
  C8 (as stated) fails on a symbol table in which eight kept symbols precede
  \<open>getUserController\<close>: the result holds eight \<open>POST\<close> entries and no entry of that
  symbol.
\<close>

theorem getUserController_cut_off_by_cap:
  "getUserController \<in> set (the (symbolAnalysis crowdedContext)) \<and>
   name getUserController = ''getUserController'' \<and>
   comment getUserController = Some ''GET /users/:id'' \<and>
   0.3 < calculateSymbolRelevance sampleBase getUserController sampleKeywords \<and>
   map api_method (findRelevantApis sampleBase (sampleServices failingLLM) crowdedContext sampleKeywords) =
     [''POST'', ''POST'', ''POST'', ''POST'', ''POST'', ''POST'', ''POST'', ''POST''] \<and>
   apiEntry (sampleServices failingLLM) crowdedContext getUserController
     \<notin> set (findRelevantApis sampleBase (sampleServices failingLLM) crowdedContext sampleKeywords)"
  by code_simp

theorem http_method_ignores_comment_witness:
  "includesStr (toLowerCase (orElse (comment listUsers) [])) ''get'' \<and>
   isApiRelated listUsers \<and>
   findRelevantApis sampleBase (sampleServices failingLLM) listContext usersKeywords =
     [\<lparr>api_path = ''src/users.ts'', api_method = ''UNKNOWN'', api_description = ''GET /users''\<rparr>]"
proof -
  have absent: "\<forall>m \<in> set httpMethods. \<not> includesStr (toLowerCase (name listUsers)) m \<and>
                           \<not> includesStr (toLowerCase (qualifiedName listUsers)) m"
    by code_simp
  have present: "\<exists>m \<in> set httpMethods. includesStr (toLowerCase (orElse (comment listUsers) [])) m"
    by code_simp
  have entry: "apiEntry (sampleServices failingLLM) listContext listUsers =
     \<lparr>api_path = ''src/users.ts'', api_method = api_method (apiEntry (sampleServices failingLLM) listContext listUsers),
      api_description = ''GET /users''\<rparr>"
    by (simp add: apiEntry_def sampleServices_def listContext_def sampleContext_def listUsers_def orElse_def)
  have relevant: "0.3 < calculateSymbolRelevance sampleBase listUsers usersKeywords"
    by code_simp
  from http_method_ignores_comment [of None listUsers "sampleServices failingLLM" listContext] absent present
  have unknown: "api_method (apiEntry (sampleServices failingLLM) listContext listUsers) = ''UNKNOWN''"
    and candidate: "isApiRelated listUsers"
    by blast+
  have "findRelevantApis sampleBase (sampleServices failingLLM) listContext usersKeywords =
          [apiEntry (sampleServices failingLLM) listContext listUsers]"
    using candidate relevant
    by (simp add: findRelevantApis_def slice_def collectApis_eq listContext_def)
  moreover have "includesStr (toLowerCase (orElse (comment listUsers) [])) ''get''"
    by code_simp
  ultimately show ?thesis using entry unknown candidate by simp
qed

end
